theory Spec2Isabelle
  imports Main
begin

section \<open>Python text and cells\<close>

text \<open>
  The converter \<^verbatim>\<open>survey_csv_to_markdown.py\<close> reads every cell of a pandas row through
  \<^verbatim>\<open>str(cell)\<close>. Text is modelled as \<^typ>\<open>string\<close>: one \<^typ>\<open>char\<close> stands for the Python
  character with the same code point (U+0000 to U+00FF), so \<^verbatim>\<open>len\<close> is \<^const>\<open>length\<close>.
  A cell is either a value, carried as its \<^verbatim>\<open>str\<close> rendering, or pandas' missing value
  \<^verbatim>\<open>NaN\<close>, whose \<^verbatim>\<open>str\<close> is \<^verbatim>\<open>nan\<close>.
\<close>

datatype cell = Text string | NaN

fun str :: "cell \<Rightarrow> string" where
  "str (Text s) = s"
| "str NaN = ''nan''"

type_synonym row = "cell list"

text \<open>\<^verbatim>\<open>str.isspace\<close> on U+0000..U+00FF: tab to carriage return, the four separators
  U+001C..U+001F, space, NEL and the no-break space.\<close>

definition isspace :: "char \<Rightarrow> bool" where
  "isspace c =
     (let n = (of_char c :: nat)
      in (9 \<le> n \<and> n \<le> 13) \<or> (28 \<le> n \<and> n \<le> 32) \<or> n = 133 \<or> n = 160)"

definition strip :: "string \<Rightarrow> string" where
  "strip s = rev (dropWhile isspace (rev (dropWhile isspace s)))"

text \<open>\<^verbatim>\<open>str.lower\<close> on U+0000..U+00FF: A-Z and the Latin-1 capitals (all of U+00C0..U+00DE
  but the multiplication sign) move up by 32.\<close>

definition lower_char :: "char \<Rightarrow> char" where
  "lower_char c =
     (let n = (of_char c :: nat)
      in if (65 \<le> n \<and> n \<le> 90) \<or> (192 \<le> n \<and> n \<le> 222 \<and> n \<noteq> 215)
         then char_of (n + 32) else c)"

definition lower :: "string \<Rightarrow> string" where
  "lower s = map lower_char s"

text \<open>The regular-expression classes \<^verbatim>\<open>\d\<close> and \<^verbatim>\<open>[A-Z]\<close>.\<close>

definition isdigit :: "char \<Rightarrow> bool" where
  "isdigit c = (let n = (of_char c :: nat) in 48 \<le> n \<and> n \<le> 57)"

definition is_AZ :: "char \<Rightarrow> bool" where
  "is_AZ c = (let n = (of_char c :: nat) in 65 \<le> n \<and> n \<le> 90)"

definition startswith :: "string \<Rightarrow> string \<Rightarrow> bool" where
  "startswith p s = (take (length p) s = p)"

definition endswith :: "string \<Rightarrow> string \<Rightarrow> bool" where
  "endswith p s = (length p \<le> length s \<and> drop (length s - length p) s = p)"

text \<open>\<^verbatim>\<open>sub in s\<close> for strings.\<close>

fun contains :: "string \<Rightarrow> string \<Rightarrow> bool" where
  "contains sub [] = (sub = [])"
| "contains sub (c # cs) = (startswith sub (c # cs) \<or> contains sub cs)"

text \<open>\<^verbatim>\<open>sep.join(xs)\<close>.\<close>

fun join :: "string \<Rightarrow> string list \<Rightarrow> string" where
  "join sep [] = []"
| "join sep [x] = x"
| "join sep (x # y # ys) = x @ sep @ join sep (y # ys)"

text \<open>\<^verbatim>\<open>re.search(r'\d', s)\<close> and \<^verbatim>\<open>re.search(r'N=\d+', s)\<close>.\<close>

definition search_digit :: "string \<Rightarrow> bool" where
  "search_digit s = list_ex isdigit s"

fun search_N_digits :: "string \<Rightarrow> bool" where
  "search_N_digits [] = False"
| "search_N_digits (c # cs) =
     ((c = CHR ''N'' \<and> (case cs of e # d # _ \<Rightarrow> e = CHR ''='' \<and> isdigit d | _ \<Rightarrow> False))
      \<or> search_N_digits cs)"

section \<open>Row classifier\<close>

text \<open>\<^verbatim>\<open>first_non_empty_cell\<close>: the loop returns at the first cell whose stripped text is
  non-empty and whose lower-cased text is not \<^verbatim>\<open>nan\<close>.\<close>

fun first_non_empty_cell :: "row \<Rightarrow> string" where
  "first_non_empty_cell [] = []"
| "first_non_empty_cell (cell # rest) =
     (let cell_str = strip (str cell)
      in if cell_str \<noteq> [] \<and> lower cell_str \<noteq> ''nan'' then cell_str
         else first_non_empty_cell rest)"

text \<open>The five patterns of \<^verbatim>\<open>question_patterns\<close>, each as \<^verbatim>\<open>re.search\<close> applies it
  (no flags: \<^verbatim>\<open>^\<close> is the start of the text, \<^verbatim>\<open>.\<close> is any character but a newline,
  \<^verbatim>\<open>$\<close> is the end of the text or the place before a final newline).\<close>

definition pat_code :: "string \<Rightarrow> bool" where
  "pat_code s =
     (case s of [] \<Rightarrow> False
      | c # cs \<Rightarrow> is_AZ c \<and> takeWhile isdigit cs \<noteq> [] \<and> startswith '':'' (dropWhile isdigit cs))"

definition pat_bracket :: "string \<Rightarrow> bool" where
  "pat_bracket s =
     (case s of [] \<Rightarrow> False
      | c # cs \<Rightarrow> c = CHR ''['' \<and> CHR '']'' \<in> set (takeWhile (\<lambda>x. x \<noteq> CHR 0x0A) cs))"

definition pat_qmark :: "string \<Rightarrow> bool" where
  "pat_qmark s = (endswith ''?'' s \<or> endswith [CHR ''?'', CHR 0x0A] s)"

definition pat_ctp :: "string \<Rightarrow> bool" where
  "pat_ctp s = startswith ''CTP:'' s"

definition pat_h :: "string \<Rightarrow> bool" where
  "pat_h s = (case s of c # d # _ \<Rightarrow> c = CHR ''h'' \<and> is_AZ d | _ \<Rightarrow> False)"

definition question_words :: "string list" where
  "question_words = [''what'', ''how'', ''which'', ''please'', ''following'']"

definition response_indicators :: "string list" where
  "response_indicators =
     [''marketing or advertising agency'', ''business entity'', ''educational institution'',
      ''organization'', ''government agency'']"

definition is_question_row :: "row \<Rightarrow> bool" where
  "is_question_row row =
     (let first_cell = first_non_empty_cell row
      in if pat_code first_cell \<or> pat_bracket first_cell \<or> pat_qmark first_cell
            \<or> pat_ctp first_cell \<or> pat_h first_cell then True
         else if length first_cell > 50
                 \<and> list_ex (\<lambda>word. contains word (lower first_cell)) question_words
              then (if \<not> list_ex (\<lambda>indicator. contains indicator (lower first_cell))
                            response_indicators
                    then True else False)
         else False)"

text \<open>The test \<^verbatim>\<open>str(cell).strip() and str(cell).strip() != 'nan'\<close> that the header and
  data predicates (and the assembler) apply to a cell: case-sensitive, unlike the one in
  \<^const>\<open>first_non_empty_cell\<close>.\<close>

definition present :: "cell \<Rightarrow> bool" where
  "present cell = (strip (str cell) \<noteq> [] \<and> strip (str cell) \<noteq> ''nan'')"

text \<open>The two texts \<^verbatim>\<open>is_header_row\<close> builds: the join of all cells (line 80) and the join
  of the present cells, unstripped (line 86).\<close>

definition full_row_text :: "row \<Rightarrow> string" where
  "full_row_text row = join '' '' (map str row)"

definition header_row_text :: "row \<Rightarrow> string" where
  "header_row_text row = join '' '' (map str (filter present row))"

definition specific_headers :: "string list" where
  "specific_headers =
     [''Pro-to-Pro Switchers (B)'', ''Software-to-Pro Switchers (C)'',
      ''Pro-to-Software Switchers (D)'']"

definition is_header_row :: "row \<Rightarrow> bool" where
  "is_header_row row =
     (let first_cell = first_non_empty_cell row
      in if first_cell = ''Total'' \<and> contains ''N='' (full_row_text row) then True
         else let row_text = header_row_text row
              in if contains ''Total (A)'' row_text then True
                 else if contains ''Total (A)'' row_text
                         \<and> contains ''Pro-to-Pro Switchers (B)'' row_text
                         \<and> contains ''Software-to-Pro Switchers (C)'' row_text
                         \<and> contains ''Pro-to-Software Switchers (D)'' row_text then True
                 else if list_ex (\<lambda>h. contains h row_text) specific_headers then True
                 else False)"

text \<open>\<^verbatim>\<open>non_empty_cells\<close> of \<^verbatim>\<open>is_data_row\<close> (line 131).\<close>

definition non_empty_cells :: "row \<Rightarrow> string list" where
  "non_empty_cells row = map (\<lambda>cell. strip (str cell)) (filter present row)"

definition numeric_cells :: "row \<Rightarrow> nat" where
  "numeric_cells row = length (filter search_digit (non_empty_cells row))"

definition response_categories :: "string list" where
  "response_categories =
     [''Total'', ''Mean'', ''Median'', ''Standard Deviation'',
      ''Yes'', ''No'', ''Male'', ''Female'', ''Other'',
      ''Very important'', ''Somewhat important'', ''Not important'',
      ''Strongly agree'', ''Agree'', ''Disagree'',
      ''Currently use'', ''Used'', ''Never used'',
      ''A marketing or advertising agency'',
      ''A business entity'', ''An educational institution'',
      ''An organization or non-profit'', ''A government agency'']"

definition is_data_row :: "row \<Rightarrow> bool" where
  "is_data_row row =
     (let first_cell = first_non_empty_cell row
      in if first_cell = [] \<or> first_cell = ''nan'' then False
         else if is_question_row row then False
         else if numeric_cells row \<ge> 2 then True
         else if list_ex (\<lambda>category. contains category first_cell) response_categories then True
         else length first_cell > 0 \<and> length first_cell < 120)"

section \<open>Data frame\<close>

text \<open>
  A pandas \<^verbatim>\<open>DataFrame\<close> as the converter reads it: the number of columns
  (\<^verbatim>\<open>len(df.columns)\<close>), the index labels, one per row, and the rows in positional order.
  \<^verbatim>\<open>iterrows\<close> yields each row with its label; \<^verbatim>\<open>iloc\<close> takes a position. \<^verbatim>\<open>read_csv\<close>
  labels the rows \<open>0, 1, 2, \<dots>\<close> (\<open>default_index\<close>) unless the data lines have one field more
  than the header line: then the first field of every line is the label of its row. A label
  is an integer or something else (text, a float), carried as its text. Every row of a frame
  has one cell per column (\<open>wf_df\<close>).
\<close>

datatype label = IntLabel int | OtherLabel string

record dataframe =
  df_columns :: nat
  df_index :: "label list"
  df_rows :: "row list"

definition wf_df :: "dataframe \<Rightarrow> bool" where
  "wf_df df =
     (length (df_index df) = length (df_rows df)
      \<and> list_all (\<lambda>r. length r = df_columns df) (df_rows df))"

definition default_index :: "dataframe \<Rightarrow> bool" where
  "default_index df = (df_index df = map (\<lambda>i. IntLabel (int i)) [0..<length (df_rows df)])"

text \<open>\<^verbatim>\<open>df.empty\<close>: some axis has length 0.\<close>

definition df_empty :: "dataframe \<Rightarrow> bool" where
  "df_empty df = (df_rows df = [] \<or> df_columns df = 0)"

text \<open>\<^verbatim>\<open>df.iterrows()\<close>.\<close>

definition iterrows :: "dataframe \<Rightarrow> (label \<times> row) list" where
  "iterrows df = zip (df_index df) (df_rows df)"

datatype py_error = IndexError | TypeError

text \<open>\<^verbatim>\<open>df.iloc[i]\<close> for an integer \<open>i\<close>: a position, counted from the end when negative;
  \<^verbatim>\<open>IndexError\<close> outside \<open>-len(df) \<le> i < len(df)\<close>. \<^verbatim>\<open>row.iloc[0]\<close> is the first cell.\<close>

definition iloc :: "row list \<Rightarrow> int \<Rightarrow> py_error + row" where
  "iloc rows i =
     (let n = int (length rows)
      in if 0 \<le> i \<and> i < n then Inr (rows ! nat i)
         else if - n \<le> i \<and> i < 0 then Inr (rows ! nat (n + i))
         else Inl IndexError)"

definition iloc0 :: "row \<Rightarrow> py_error + cell" where
  "iloc0 r = (case r of [] \<Rightarrow> Inl IndexError | c # _ \<Rightarrow> Inr c)"

section \<open>Section segmenter\<close>

text \<open>Lines 174-177: the index labels of the question rows, in row order.\<close>

definition question_boundaries :: "dataframe \<Rightarrow> label list" where
  "question_boundaries df =
     map fst (filter (\<lambda>(index, row). is_question_row row) (iterrows df))"

text \<open>Lines 181-183: section \<open>i\<close> runs from boundary \<open>i\<close> to boundary \<open>i + 1\<close>, or to
  \<^verbatim>\<open>len(df)\<close> for the last boundary.\<close>

definition section_bounds :: "'a list \<Rightarrow> 'a \<Rightarrow> ('a \<times> 'a) list" where
  "section_bounds qb n =
     map (\<lambda>i. (qb ! i, if i + 1 < length qb then qb ! (i + 1) else n)) [0..<length qb]"

definition question_sections :: "dataframe \<Rightarrow> (label \<times> label) list" where
  "question_sections df =
     section_bounds (question_boundaries df) (IntLabel (int (length (df_rows df))))"

text \<open>Lines 193-194: the rows \<^verbatim>\<open>df.iloc[row_idx]\<close> for \<^verbatim>\<open>row_idx in range(a, b)\<close>, up to the
  first position that raises.\<close>

fun collect :: "(py_error + 'a) list \<Rightarrow> py_error + 'a list" where
  "collect [] = Inr []"
| "collect (x # xs) =
     (case x of
        Inl e \<Rightarrow> Inl e
      | Inr v \<Rightarrow> (case collect xs of Inl e \<Rightarrow> Inl e | Inr vs \<Rightarrow> Inr (v # vs)))"

definition range_rows :: "row list \<Rightarrow> int \<Rightarrow> int \<Rightarrow> py_error + row list" where
  "range_rows rows a b = collect (map (iloc rows) [a..b - 1])"

subsection \<open>Boundaries that are positions\<close>

text \<open>When the labels are the positions (\<open>default_index\<close>), the boundaries are the positions
  of the question rows, the sections are ranges of positions, the rows of
  \<^verbatim>\<open>range(question_start + 1, question_end)\<close> are a slice of the frame and so are the rows of
  \<^verbatim>\<open>range(max(0, question_start - 6), question_start)\<close>.\<close>

definition question_positions :: "row list \<Rightarrow> nat list" where
  "question_positions rows = filter (\<lambda>index. is_question_row (rows ! index)) [0..<length rows]"

definition sections :: "row list \<Rightarrow> (nat \<times> nat) list" where
  "sections rows = section_bounds (question_positions rows) (length rows)"

definition section_rows :: "row list \<Rightarrow> nat \<Rightarrow> nat \<Rightarrow> row list" where
  "section_rows rows question_start question_end =
     drop (question_start + 1) (take question_end rows)"

definition rows_above :: "row list \<Rightarrow> nat \<Rightarrow> row list" where
  "rows_above rows question_start = drop (question_start - 6) (take question_start rows)"

section \<open>Header reconciler\<close>

text \<open>The cell list built at lines 197-203, 207-213, 257-263 and 273-279: the stripped text
  of a present cell, the empty text otherwise.\<close>

definition clean_cells :: "row \<Rightarrow> string list" where
  "clean_cells row =
     map (\<lambda>cell. let cell_str = strip (str cell)
                 in if cell_str \<noteq> [] \<and> cell_str \<noteq> ''nan'' then cell_str else []) row"

text \<open>Lines 193-216: one pass over the section's rows, header test first; a data row is kept
  only if some cleaned cell is non-empty (\<^verbatim>\<open>any(data_row)\<close>). The state is
  \<open>(all_header_rows, section_data)\<close>.\<close>

fun scan_section :: "row list \<Rightarrow> string list list \<times> string list list
    \<Rightarrow> string list list \<times> string list list" where
  "scan_section [] acc = acc"
| "scan_section (row # rest) (all_header_rows, section_data) =
     (if is_header_row row
      then scan_section rest (all_header_rows @ [clean_cells row], section_data)
      else if is_data_row row
      then (let data_row = clean_cells row
            in if list_ex (\<lambda>c. c \<noteq> []) data_row
               then scan_section rest (all_header_rows, section_data @ [data_row])
               else scan_section rest (all_header_rows, section_data))
      else scan_section rest (all_header_rows, section_data))"

definition switcher_labels :: "string list" where
  "switcher_labels =
     [''Pro-to-Pro Switchers (B)'', ''Software-to-Pro Switchers (C)'',
      ''Pro-to-Software Switchers (D)'']"

text \<open>The two tests of the loop at lines 234-244 on \<^verbatim>\<open>' '.join(header_row)\<close>.\<close>

definition is_descriptive :: "string list \<Rightarrow> bool" where
  "is_descriptive header_row =
     (let header_text = join '' '' header_row
      in contains ''Total (A)'' header_text
         \<or> list_ex (\<lambda>lbl. contains lbl header_text) switcher_labels)"

definition has_N_marker :: "string list \<Rightarrow> bool" where
  "has_N_marker header_row =
     (let header_text = join '' '' header_row
      in contains ''N='' header_text \<or> search_N_digits header_text)"

text \<open>Lines 234-244: every matching row overwrites the variable, so the state is
  \<open>(descriptive_headers, total_headers)\<close>, \<^verbatim>\<open>None\<close> at the start.\<close>

fun scan_headers :: "string list list \<Rightarrow> string list option \<times> string list option
    \<Rightarrow> string list option \<times> string list option" where
  "scan_headers [] acc = acc"
| "scan_headers (header_row # rest) (descriptive_headers, total_headers) =
     scan_headers rest
       (if is_descriptive header_row then Some header_row else descriptive_headers,
        if has_N_marker header_row then Some header_row else total_headers)"

text \<open>Python's truth value of a variable that holds \<^verbatim>\<open>None\<close> or a list.\<close>

fun truthy :: "string list option \<Rightarrow> bool" where
  "truthy None = False"
| "truthy (Some xs) = (xs \<noteq> [])"

text \<open>Lines 252-265 and 269-281: the first row with a present cell matching \<^verbatim>\<open>N=\d+\<close>, as the
  cleaned cell list; the loop breaks there.\<close>

definition has_N_cell :: "row \<Rightarrow> bool" where
  "has_N_cell row = (let cells = non_empty_cells row in list_ex search_N_digits cells)"

fun search_N_row :: "row list \<Rightarrow> string list option" where
  "search_N_row [] = None"
| "search_N_row (row # rest) =
     (if has_N_cell row then Some (clean_cells row) else search_N_row rest)"

text \<open>Lines 250-281: the two fallback searches, each run only while \<^verbatim>\<open>total_headers\<close> is
  still false; first the rows of the section after the question row, then the rows above
  the question row.\<close>

definition fallback_total :: "row list \<Rightarrow> row list \<Rightarrow> string list option
    \<Rightarrow> string list option" where
  "fallback_total rows_in_section rows_before total_headers =
     (let total_headers =
            (if \<not> truthy total_headers
             then (case search_N_row rows_in_section of
                     Some th \<Rightarrow> Some th | None \<Rightarrow> total_headers)
             else total_headers)
      in if \<not> truthy total_headers
         then (case search_N_row rows_before of
                 Some th \<Rightarrow> Some th | None \<Rightarrow> total_headers)
         else total_headers)"

text \<open>Lines 284-287: the descriptive header first, then the sample-size header.\<close>

definition build_header_rows :: "string list option \<Rightarrow> string list option
    \<Rightarrow> string list list" where
  "build_header_rows descriptive_headers total_headers =
     (if truthy descriptive_headers then [the descriptive_headers] else [])
     @ (if truthy total_headers then [the total_headers] else [])"

text \<open>Lines 219-289, on the rows of \<^verbatim>\<open>range(question_start + 1, question_end)\<close> and those of
  \<^verbatim>\<open>range(max(0, question_start - 6), question_start)\<close>.\<close>

definition reconcile_headers :: "row list \<Rightarrow> row list \<Rightarrow> string list list
    \<Rightarrow> string list list" where
  "reconcile_headers rows_in_section rows_before all_header_rows =
     (if all_header_rows \<noteq> [] then
        (case scan_headers all_header_rows (None, None) of
           (descriptive_headers, total_headers) \<Rightarrow>
             build_header_rows descriptive_headers
               (fallback_total rows_in_section rows_before total_headers))
      else [])"

text \<open>The header set and the data rows of the section \<open>[question_start, question_end)\<close> of
  positions.\<close>

definition section_headers :: "row list \<Rightarrow> nat \<Rightarrow> nat \<Rightarrow> string list list" where
  "section_headers rows question_start question_end =
     reconcile_headers (section_rows rows question_start question_end)
       (rows_above rows question_start)
       (fst (scan_section (section_rows rows question_start question_end) ([], [])))"

definition section_data :: "row list \<Rightarrow> nat \<Rightarrow> nat \<Rightarrow> string list list" where
  "section_data rows question_start question_end =
     snd (scan_section (section_rows rows question_start question_end) ([], []))"

text \<open>For stating which row a scan that overwrites its variable ends with: the last element
  of a list that satisfies \<open>P\<close>, if there is one.\<close>

definition last_where :: "('a \<Rightarrow> bool) \<Rightarrow> 'a list \<Rightarrow> 'a option" where
  "last_where P xs = (case filter P xs of [] \<Rightarrow> None | y # ys \<Rightarrow> Some (last (y # ys)))"

section \<open>Table renderer\<close>

text \<open>The decimal text of a non-negative integer, as an f-string renders it.\<close>

function str_nat :: "nat \<Rightarrow> string" where
  "str_nat n =
     (if n < 10 then [char_of (48 + n)] else str_nat (n div 10) @ [char_of (48 + n mod 10)])"
  by pat_completeness auto
termination
  by (relation "measure id") auto

declare str_nat.simps [simp del]

text \<open>\<^verbatim>\<open>s.replace(old, new)\<close>: the occurrences of \<open>old\<close> from left to right, without
  overlap.\<close>

function replace :: "string \<Rightarrow> string \<Rightarrow> string \<Rightarrow> string" where
  "replace old new [] = (if old = [] then new else [])"
| "replace old new (c # cs) =
     (if old = [] then new @ c # replace old new cs
      else if startswith old (c # cs) then new @ replace old new (drop (length old) (c # cs))
      else c # replace old new cs)"
  by pat_completeness auto
termination
  by (relation "measure (\<lambda>(old, new, s). length s)") auto

text \<open>Lines 347-354: a row is padded with empty cells to the header's length
  (\<^verbatim>\<open>while len(data_row) < len(table_headers)\<close>), cut to it, and each cell cleaned.\<close>

definition pad_row :: "nat \<Rightarrow> string list \<Rightarrow> string list" where
  "pad_row n r = r @ replicate (n - length r) []"

definition clean_cell :: "string \<Rightarrow> string" where
  "clean_cell cell = replace [CHR 0x0A] '' '' (replace ''|'' [CHR 0x5C, CHR ''|''] cell)"

definition table_line :: "string list \<Rightarrow> string" where
  "table_line cells = ''| '' @ join '' | '' cells @ '' |\<newline>''"

definition data_line :: "nat \<Rightarrow> string list \<Rightarrow> string" where
  "data_line n data_row = table_line (map clean_cell (take n (pad_row n data_row)))"

definition secondary_line :: "nat \<Rightarrow> string list \<Rightarrow> string" where
  "secondary_line n secondary = table_line (take n (pad_row n secondary))"

definition separator_line :: "nat \<Rightarrow> string" where
  "separator_line n = ''|'' @ concat (replicate n ''---|'') @ ''\<newline>''"

text \<open>Lines 319-325: the first header row, or \<^verbatim>\<open>Column 1\<close>, \<^verbatim>\<open>Column 2\<close>, ... up to the
  widest data row.\<close>

definition table_headers :: "string list list \<Rightarrow> string list list \<Rightarrow> string list" where
  "table_headers header_rows data_rows =
     (case header_rows of
        h # _ \<Rightarrow> h
      | [] \<Rightarrow>
         (let max_cols = (case data_rows of [] \<Rightarrow> 0
                          | r # rs \<Rightarrow> fold max (map length rs) (length r))
          in map (\<lambda>i. ''Column '' @ str_nat (i + 1)) [0..<max_cols]))"

definition question_heading :: "nat \<Rightarrow> string \<Rightarrow> string" where
  "question_heading question_num question =
     ''### Question '' @ str_nat question_num @ ''\<newline>\<newline>''
     @ ''**'' @ question @ ''**\<newline>\<newline>''"

definition format_question_section :: "nat \<Rightarrow> string \<Rightarrow> string list list \<Rightarrow> string list list
    \<Rightarrow> string" where
  "format_question_section question_num question header_rows data_rows =
     (let content = question_heading question_num question
      in if header_rows = [] \<and> data_rows = []
         then content @ ''*No response data available for this question.*\<newline>\<newline>''
         else
          (let th = table_headers header_rows data_rows
           in if data_rows \<noteq> []
              then content @ ''#### Response Data\<newline>\<newline>''
                   @ table_line th
                   @ separator_line (length th)
                   @ (if length header_rows > 1
                      then secondary_line (length th) (header_rows ! 1) else [])
                   @ concat (map (data_line (length th)) data_rows)
                   @ ''\<newline>''
              else content))"

section \<open>Document assembler\<close>

text \<open>Line 186: \<^verbatim>\<open>str(df.iloc[question_start].iloc[0]).strip()\<close>.\<close>

definition question_text :: "row list \<Rightarrow> int \<Rightarrow> py_error + string" where
  "question_text rows question_start =
     (case iloc rows question_start of
        Inl e \<Rightarrow> Inl e
      | Inr r \<Rightarrow> (case iloc0 r of Inl e \<Rightarrow> Inl e | Inr c \<Rightarrow> Inr (strip (str c))))"

text \<open>Lines 183-289 for one pair of boundaries: the question text, the header set and the data
  rows. A boundary is a label and is used as a position: \<^verbatim>\<open>iloc\<close> and \<^verbatim>\<open>range\<close> raise
  \<^verbatim>\<open>TypeError\<close> on a label that is not an integer. The rows above the question row are read
  only after line 186 has passed, so their positions lie inside the frame.\<close>

definition section_parts :: "row list \<Rightarrow> label \<Rightarrow> label
    \<Rightarrow> py_error + (string \<times> string list list \<times> string list list)" where
  "section_parts rows question_start question_end =
     (case question_start of
        OtherLabel _ \<Rightarrow> Inl TypeError
      | IntLabel s \<Rightarrow>
         (case question_text rows s of
            Inl err \<Rightarrow> Inl err
          | Inr q \<Rightarrow>
             (case question_end of
                OtherLabel _ \<Rightarrow> Inl TypeError
              | IntLabel e \<Rightarrow>
                 (case range_rows rows (s + 1) e of
                    Inl err \<Rightarrow> Inl err
                  | Inr rows_in_section \<Rightarrow>
                     (case scan_section rows_in_section ([], []) of
                        (all_header_rows, data_rows) \<Rightarrow>
                          Inr (q,
                               reconcile_headers rows_in_section (rows_above rows (nat s))
                                 all_header_rows,
                               data_rows))))))"

text \<open>Lines 164-171. \<^verbatim>\<open>str.title\<close> needs Unicode's case tables and is not modelled: the
  assembler takes it as the parameter \<open>py_title\<close>.\<close>

definition document_header :: "(string \<Rightarrow> string) \<Rightarrow> dataframe \<Rightarrow> string \<Rightarrow> string" where
  "document_header py_title df filename =
     (let file_title = py_title (replace ''.csv'' [] (replace ''_'' '' '' filename))
      in ''# '' @ file_title @ ''\<newline>\<newline>''
         @ ''**Total Records:** '' @ str_nat (length (df_rows df)) @ ''  \<newline>''
         @ ''**Total Columns:** '' @ str_nat (df_columns df) @ ''  \<newline>''
         @ ''**Generated:** October 28, 2025  \<newline>\<newline>''
         @ ''## Survey Questions and Responses\<newline>\<newline>'')"

text \<open>Lines 180-296: the loop over the sections; the state is
  \<open>(question_number, markdown_content)\<close>.\<close>

fun process_sections :: "row list \<Rightarrow> (label \<times> label) list \<Rightarrow> nat \<times> string
    \<Rightarrow> py_error + (nat \<times> string)" where
  "process_sections rows [] st = Inr st"
| "process_sections rows ((question_start, question_end) # rest)
       (question_number, markdown_content) =
     (case section_parts rows question_start question_end of
        Inl e \<Rightarrow> Inl e
      | Inr (q, header_rows, data_rows) \<Rightarrow>
         (if header_rows \<noteq> [] \<or> data_rows \<noteq> []
          then process_sections rows rest
                 (question_number + 1,
                  markdown_content
                  @ format_question_section (question_number + 1) q header_rows data_rows)
          else process_sections rows rest (question_number, markdown_content)))"

definition summary :: "nat \<Rightarrow> string \<Rightarrow> string" where
  "summary question_number filename =
     ''## Summary\<newline>\<newline>''
     @ ''**Total Questions Processed:** '' @ str_nat question_number @ ''  \<newline>''
     @ ''**Source File:** '' @ filename @ ''  \<newline>''"

definition empty_document :: "string \<Rightarrow> string" where
  "empty_document filename = ''# '' @ filename @ ''\<newline>\<newline>*This file is empty.*\<newline>''"

definition format_survey_csv_to_markdown :: "(string \<Rightarrow> string) \<Rightarrow> dataframe \<Rightarrow> string
    \<Rightarrow> py_error + string" where
  "format_survey_csv_to_markdown py_title df filename =
     (if df_empty df then Inr (empty_document filename)
      else (case process_sections (df_rows df) (question_sections df)
                   (0, document_header py_title df filename) of
              Inl e \<Rightarrow> Inl e
            | Inr (question_number, markdown_content) \<Rightarrow>
                Inr (markdown_content @ summary question_number filename)))"

text \<open>\<^verbatim>\<open>str.title\<close> on ASCII text, for running the assembler on ASCII file names: a letter is
  upper-cased after a character that is not a letter (or at the start) and lower-cased after
  a letter.\<close>

definition is_az :: "char \<Rightarrow> bool" where
  "is_az c = (let n = (of_char c :: nat) in 97 \<le> n \<and> n \<le> 122)"

fun title_from :: "bool \<Rightarrow> string \<Rightarrow> string" where
  "title_from previous_is_cased [] = []"
| "title_from previous_is_cased (c # cs) =
     (if is_AZ c \<or> is_az c
      then (if previous_is_cased then lower_char c
            else if is_az c then char_of ((of_char c :: nat) - 32) else c)
           # title_from True cs
      else c # title_from False cs)"

definition title_ascii :: "string \<Rightarrow> string" where
  "title_ascii s = title_from False s"

section \<open>Reading a rendered table row\<close>

text \<open>The fields of a table row as a Markdown reader splits it: a pipe counts as a
  separator unless a backslash stands right before it, and a row with \<open>k\<close> separators has
  \<open>k - 1\<close> fields between them.\<close>

fun unescaped_pipes :: "bool \<Rightarrow> string \<Rightarrow> nat" where
  "unescaped_pipes after_backslash [] = 0"
| "unescaped_pipes after_backslash (c # cs) =
     (if c = CHR ''|'' \<and> \<not> after_backslash then 1 else 0)
     + unescaped_pipes (c = CHR 0x5C) cs"

definition table_fields :: "string \<Rightarrow> nat" where
  "table_fields line = unescaped_pipes False line - 1"

section \<open>Example grids\<close>

text \<open>Small grids on which the properties below are run.\<close>

abbreviation (input) grid_two_questions :: "row list" where
  "grid_two_questions \<equiv>
     [[Text ''Notes''], [Text ''Q1: Tea?''], [Text ''Yes''], [Text ''S2: Age''], [Text ''No'']]"

abbreviation (input) grid_n_then_labels :: "row list" where
  "grid_n_then_labels \<equiv>
     [[Text ''Q1: Tea?'', NaN], [Text ''Total'', Text ''N=100''],
      [Text ''Total (A)'', Text ''Pro-to-Pro Switchers (B)''], [Text ''Yes'', Text ''60%'']]"

abbreviation (input) grid_bare_marker :: "row list" where
  "grid_bare_marker \<equiv>
     [[Text ''Q1: Tea?'', NaN], [Text ''Total'', Text ''N=100''],
      [Text ''Total (A)'', Text ''N=all''], [Text ''Yes'', Text ''60%'']]"

abbreviation (input) grid_unflagged_marker :: "row list" where
  "grid_unflagged_marker \<equiv>
     [[Text ''Q1: Tea?'', NaN], [Text ''Base'', Text ''N=100''], [Text ''Yes'', Text ''60%'']]"

abbreviation (input) frame_one_question :: dataframe where
  "frame_one_question \<equiv>
     \<lparr>df_columns = 1, df_index = [IntLabel 0], df_rows = [[Text ''Q1: Do you like tea?'']]\<rparr>"

abbreviation (input) frame_shifted_labels :: dataframe where
  "frame_shifted_labels \<equiv>
     \<lparr>df_columns = 2, df_index = [IntLabel 1, IntLabel 2, IntLabel 3],
      df_rows = [[Text ''Q1: Do you like tea?'', NaN], [Text ''Yes'', Text ''60%''],
                 [Text ''No'', Text ''40%'']]\<rparr>"

abbreviation (input) frame_large_labels :: dataframe where
  "frame_large_labels \<equiv>
     \<lparr>df_columns = 2, df_index = [IntLabel 10, IntLabel 20, IntLabel 30],
      df_rows = [[Text ''Q1: Do you like tea?'', NaN], [Text ''Yes'', Text ''60%''],
                 [Text ''No'', Text ''40%'']]\<rparr>"

abbreviation (input) grid_header_pipe :: "row list" where
  "grid_header_pipe \<equiv>
     [[Text ''Q1: Tea?'', NaN], [Text ''Total (A)'', Text ''B|C''], [Text ''Yes'', Text ''6|0%'']]"

abbreviation (input) grid_fallback :: "row list" where
  "grid_fallback \<equiv>
     [[Text ''Base'', Text ''N=250''], [Text ''Q1: Tea?'', NaN],
      [Text ''Total (A)'', Text ''Pro-to-Pro Switchers (B)''],
      [Text ''Sample'', Text ''N=100''], [Text ''Yes'', Text ''60%'']]"

section \<open>Properties of the row classifier\<close>

text \<open>C1. A row that \<open>is_question_row\<close> accepts is never accepted by \<open>is_data_row\<close>: the
  question test comes first in \<open>is_data_row\<close>.\<close>

theorem question_row_not_data: "is_question_row row \<Longrightarrow> \<not> is_data_row row"
  by (simp add: is_data_row_def Let_def)

theorem question_row_not_data_witness:
  "is_question_row [Text ''Q1: Do you like tea?'']
   \<and> \<not> is_data_row [Text ''Q1: Do you like tea?'']"
  using question_row_not_data [of "[Text ''Q1: Do you like tea?'']"] by code_simp

text \<open>C9, as the claim states it, fails: the row \<open>Total, N=abc\<close> has \<open>Total\<close> as its first
  non-empty cell, matches no other header trigger and is a header row, yet no \<open>N=\<close> in its
  text (joined with or without spaces) is followed by a digit.\<close>

theorem total_header_needs_digits_counterexample:
  "first_non_empty_cell [Text ''Total'', Text ''N=abc''] = ''Total''
   \<and> \<not> contains ''Total (A)'' (header_row_text [Text ''Total'', Text ''N=abc''])
   \<and> \<not> list_ex (\<lambda>h. contains h (header_row_text [Text ''Total'', Text ''N=abc'']))
          specific_headers
   \<and> is_header_row [Text ''Total'', Text ''N=abc'']
   \<and> \<not> search_N_digits (full_row_text [Text ''Total'', Text ''N=abc''])
   \<and> \<not> search_N_digits (concat (map str [Text ''Total'', Text ''N=abc'']))"
  by code_simp

text \<open>C9, amended. For a row whose first non-empty cell is exactly \<open>Total\<close> and which matches
  no other header trigger, \<open>is_header_row\<close> holds if and only if the text of all cells, joined
  by single spaces, contains the two characters \<open>N=\<close>; no digit has to follow.\<close>

theorem total_header_iff_N_eq:
  "first_non_empty_cell row = ''Total'' \<Longrightarrow>
   \<not> contains ''Total (A)'' (header_row_text row) \<Longrightarrow>
   \<not> list_ex (\<lambda>h. contains h (header_row_text row)) specific_headers \<Longrightarrow>
   is_header_row row = contains ''N='' (full_row_text row)"
  by (simp add: is_header_row_def)

theorem total_header_iff_N_eq_witness:
  "first_non_empty_cell [Text ''Total'', Text ''N=100''] = ''Total''
   \<and> \<not> contains ''Total (A)'' (header_row_text [Text ''Total'', Text ''N=100''])
   \<and> \<not> list_ex (\<lambda>h. contains h (header_row_text [Text ''Total'', Text ''N=100'']))
          specific_headers
   \<and> is_header_row [Text ''Total'', Text ''N=100'']
      = contains ''N='' (full_row_text [Text ''Total'', Text ''N=100''])
   \<and> is_header_row [Text ''Total'', Text ''N=100'']"
proof -
  have a: "first_non_empty_cell [Text ''Total'', Text ''N=100''] = ''Total''"
    by code_simp
  have b: "\<not> contains ''Total (A)'' (header_row_text [Text ''Total'', Text ''N=100''])"
    by code_simp
  have c: "\<not> list_ex (\<lambda>h. contains h (header_row_text [Text ''Total'', Text ''N=100'']))
             specific_headers"
    by code_simp
  have d: "is_header_row [Text ''Total'', Text ''N=100'']"
    by code_simp
  from total_header_iff_N_eq [OF a b c] a b c d show ?thesis by blast
qed

lemma fnec_skip:
  assumes "lower (strip (str c)) = ''nan''"
  shows "first_non_empty_cell (pre @ c # post) = first_non_empty_cell (pre @ post)"
  using assms by (induction pre) (simp_all add: Let_def)

lemma contains_self_append: "contains sub (sub @ post)"
proof (cases "sub @ post")
  case Nil
  then show ?thesis by simp
next
  case (Cons a list)
  have "take (length sub) (sub @ post) = sub" by simp
  then have "startswith sub (a # list)" unfolding Cons startswith_def .
  then show ?thesis unfolding Cons by simp
qed

lemma contains_append: "contains sub (pre @ sub @ post)"
  by (induction pre) (simp_all add: contains_self_append)

lemma join_Cons: "join sep (x # xs) = (if xs = [] then x else x @ sep @ join sep xs)"
  by (cases xs) simp_all

lemma join_mid: "\<exists>a b. join sep (xs @ y # ys) = a @ y @ b"
proof (induction xs)
  case Nil
  have "join sep (y # ys) = [] @ y @ (if ys = [] then [] else sep @ join sep ys)"
    by (simp add: join_Cons)
  then show ?case by (metis append_Nil)
next
  case (Cons x xs)
  then obtain a b where "join sep (xs @ y # ys) = a @ y @ b" by blast
  then have "join sep ((x # xs) @ y # ys) = (x @ sep @ a) @ y @ b"
    by (simp add: join_Cons)
  then show ?case by blast
qed

lemma contains_join: "contains y (join sep (xs @ y # ys))"
proof -
  obtain a b where "join sep (xs @ y # ys) = a @ y @ b" using join_mid by blast
  then show ?thesis by (simp add: contains_append)
qed

text \<open>C10. The null-marker test is case-insensitive in \<open>first_non_empty_cell\<close> and
  case-sensitive in \<open>is_header_row\<close> and \<open>is_data_row\<close>: a cell whose stripped text is a
  casing of \<open>nan\<close> other than \<open>nan\<close> itself is passed over by the scan for the first non-empty
  cell (the result is that of the row without the cell), yet it is kept among the present
  cells, its text is part of both row texts of \<open>is_header_row\<close>, and its stripped text is an
  element of the \<open>non_empty_cells\<close> that \<open>is_data_row\<close> counts digits in.\<close>

theorem nan_casing_asymmetry:
  assumes "lower (strip (str c)) = ''nan''" and "strip (str c) \<noteq> ''nan''"
  shows "first_non_empty_cell (pre @ c # post) = first_non_empty_cell (pre @ post)
    \<and> filter present (pre @ c # post) = filter present pre @ c # filter present post
    \<and> contains (str c) (header_row_text (pre @ c # post))
    \<and> contains (str c) (full_row_text (pre @ c # post))
    \<and> non_empty_cells (pre @ c # post)
        = non_empty_cells pre @ strip (str c) # non_empty_cells post"
proof -
  have ne: "strip (str c) \<noteq> []" using assms(1) by (auto simp: lower_def)
  have p: "present c" using ne assms(2) by (simp add: present_def)
  have 1: "first_non_empty_cell (pre @ c # post) = first_non_empty_cell (pre @ post)"
    using assms(1) by (rule fnec_skip)
  have 2: "filter present (pre @ c # post) = filter present pre @ c # filter present post"
    using p by simp
  have 3: "contains (str c) (header_row_text (pre @ c # post))"
    unfolding header_row_text_def 2 by (simp add: contains_join)
  have 4: "contains (str c) (full_row_text (pre @ c # post))"
    unfolding full_row_text_def by (simp add: contains_join)
  have 5: "non_empty_cells (pre @ c # post)
      = non_empty_cells pre @ strip (str c) # non_empty_cells post"
    by (simp add: non_empty_cells_def p)
  show ?thesis using 1 2 3 4 5 by blast
qed

theorem nan_casing_asymmetry_witness:
  "lower (strip (str (Text ''NaN''))) = ''nan''
   \<and> strip (str (Text ''NaN'')) \<noteq> ''nan''
   \<and> first_non_empty_cell ([NaN] @ Text ''NaN'' # [Text ''Total'']) = ''Total''
   \<and> header_row_text ([NaN] @ Text ''NaN'' # [Text ''Total'']) = ''NaN Total''
   \<and> non_empty_cells ([NaN] @ Text ''NaN'' # [Text ''Total'']) = [''NaN'', ''Total'']"
proof -
  have a: "lower (strip (str (Text ''NaN''))) = ''nan''"
    by code_simp
  have b: "strip (str (Text ''NaN'')) \<noteq> ''nan''"
    by code_simp
  have c: "first_non_empty_cell ([NaN] @ [Text ''Total'']) = ''Total''"
    by code_simp
  have d: "header_row_text ([NaN] @ Text ''NaN'' # [Text ''Total'']) = ''NaN Total''"
    by code_simp
  have e: "non_empty_cells [NaN] = []" "non_empty_cells [Text ''Total''] = [''Total'']"
    "strip (str (Text ''NaN'')) = ''NaN''"
    by code_simp+
  from nan_casing_asymmetry [OF a b, of "[NaN]" "[Text ''Total'']"] a b c d e
  show ?thesis by simp
qed

section \<open>Properties of the section segmenter\<close>

lemma qb_sorted: "sorted_wrt (<) (question_positions rows)"
  by (simp add: question_positions_def sorted_wrt_filter)

lemma qb_set: "set (question_positions rows) = {i. i < length rows \<and> is_question_row (rows ! i)}"
  by (auto simp: question_positions_def)

lemma qb_length: "length (question_positions rows) = length (filter is_question_row rows)"
proof -
  have "distinct (question_positions rows)"
    by (simp add: question_positions_def)
  then have "length (question_positions rows) = card (set (question_positions rows))"
    by (simp add: distinct_card)
  also have "\<dots> = card {i. i < length rows \<and> is_question_row (rows ! i)}"
    by (simp add: qb_set)
  also have "\<dots> = length (filter is_question_row rows)"
    by (simp add: length_filter_conv_card)
  finally show ?thesis .
qed

lemma sb_length: "length (section_bounds qb n) = length qb"
  by (simp add: section_bounds_def)

lemma sb_nth: "k < length qb \<Longrightarrow>
  section_bounds qb n ! k = (qb ! k, if k + 1 < length qb then qb ! (k + 1) else n)"
  by (simp add: section_bounds_def)

lemma sb_fst: "map fst (section_bounds qb n) = qb"
  by (rule nth_equalityI) (simp_all add: sb_length sb_nth)

lemma sb_nonempty:
  assumes s: "sorted_wrt (<) (qb :: nat list)" and b: "\<forall>x\<in>set qb. x < n" and k: "k < length qb"
  shows "fst (section_bounds qb n ! k) < snd (section_bounds qb n ! k)"
proof (cases "k + 1 < length qb")
  case True
  then have "qb ! k < qb ! (k + 1)" using s by (simp add: sorted_wrt_nth_less)
  then show ?thesis using k True by (simp add: sb_nth)
next
  case False
  have "qb ! k < n" using b k by simp
  then show ?thesis using k False by (simp add: sb_nth)
qed

lemma sorted_nth_mono_less:
  "sorted_wrt (<) (qb :: nat list) \<Longrightarrow> i \<le> j \<Longrightarrow> j < length qb \<Longrightarrow> qb ! i \<le> qb ! j"
  by (cases "i = j") (auto simp: sorted_wrt_nth_less le_less dest: less_imp_le)

lemma sb_cover_ex:
  assumes s: "sorted_wrt (<) (qb :: nat list)" and ne: "qb \<noteq> []" and lo: "qb ! 0 \<le> r" and hi: "r < n"
  shows "\<exists>k<length qb. fst (section_bounds qb n ! k) \<le> r \<and> r < snd (section_bounds qb n ! k)"
proof -
  let ?K = "{k. k < length qb \<and> qb ! k \<le> r}"
  have fin: "finite ?K" by simp
  have "0 \<in> ?K" using ne lo by simp
  then have nonempty: "?K \<noteq> {}" by blast
  define k where "k = Max ?K"
  have kin: "k \<in> ?K" unfolding k_def using fin nonempty by (rule Max_in)
  then have kl: "k < length qb" and kr: "qb ! k \<le> r" by simp_all
  have up: "r < snd (section_bounds qb n ! k)"
  proof (cases "k + 1 < length qb")
    case True
    have "\<not> qb ! (k + 1) \<le> r"
    proof
      assume "qb ! (k + 1) \<le> r"
      then have "k + 1 \<in> ?K" using True by simp
      then have "k + 1 \<le> k" unfolding k_def using fin by (simp add: Max_ge)
      then show False by simp
    qed
    then show ?thesis using kl True by (simp add: sb_nth)
  next
    case False
    then show ?thesis using kl hi by (simp add: sb_nth)
  qed
  show ?thesis using kl kr up by (auto simp: sb_nth)
qed

lemma sb_cover_unique:
  assumes s: "sorted_wrt (<) (qb :: nat list)"
    and j: "j < length qb" "fst (section_bounds qb n ! j) \<le> r" "r < snd (section_bounds qb n ! j)"
    and k: "k < length qb" "fst (section_bounds qb n ! k) \<le> r" "r < snd (section_bounds qb n ! k)"
  shows "j = k"
proof -
  have aux: False if a: "a < b" "b < length qb" "r < snd (section_bounds qb n ! a)"
      "fst (section_bounds qb n ! b) \<le> r" for a b
  proof -
    have al: "a + 1 < length qb" using a by simp
    then have "snd (section_bounds qb n ! a) = qb ! (a + 1)" by (simp add: sb_nth)
    moreover have "qb ! (a + 1) \<le> qb ! b" using s a by (intro sorted_nth_mono_less) simp_all
    moreover have "fst (section_bounds qb n ! b) = qb ! b" using a by (simp add: sb_nth)
    ultimately show False using a by simp
  qed
  show ?thesis
  proof (rule ccontr)
    assume "j \<noteq> k"
    then consider "j < k" | "k < j" by linarith
    then show False
    proof cases
      case 1 then show False using aux[of j k] j k by blast
    next
      case 2 then show False using aux[of k j] j k by blast
    qed
  qed
qed

text \<open>By position, the sections partition the grid: one section per question row; the
  sections start at the question rows in row order, each is a non-empty half-open range that
  ends where the next one starts (the last at the end of the grid); every row at or after
  the first question row lies in exactly one section and every row before it in none.\<close>

lemma sections_partition_by_position:
  "length (sections rows) = length (filter is_question_row rows)
   \<and> map fst (sections rows) = filter (\<lambda>i. is_question_row (rows ! i)) [0..<length rows]
   \<and> (\<forall>k<length (sections rows).
        fst (sections rows ! k) < snd (sections rows ! k)
        \<and> snd (sections rows ! k)
            = (if k + 1 < length (sections rows) then fst (sections rows ! (k + 1))
               else length rows))
   \<and> (\<forall>r<length rows.
        (\<exists>q\<le>r. is_question_row (rows ! q)) \<longrightarrow>
        (\<exists>!k. k < length (sections rows)
              \<and> fst (sections rows ! k) \<le> r \<and> r < snd (sections rows ! k)))
   \<and> (\<forall>r<length rows.
        (\<forall>q\<le>r. \<not> is_question_row (rows ! q)) \<longrightarrow>
        \<not> (\<exists>k<length (sections rows).
              fst (sections rows ! k) \<le> r \<and> r < snd (sections rows ! k)))"
proof -
  let ?qb = "question_positions rows"
  let ?n = "length rows"
  have s: "sorted_wrt (<) ?qb" by (rule qb_sorted)
  have b: "\<forall>x\<in>set ?qb. x < ?n" by (simp add: qb_set)
  have len: "length (sections rows) = length ?qb" by (simp add: sections_def sb_length)
  have c1: "length (sections rows) = length (filter is_question_row rows)"
    by (simp add: len qb_length)
  have c2: "map fst (sections rows) = filter (\<lambda>i. is_question_row (rows ! i)) [0..<length rows]"
    by (simp add: sections_def sb_fst question_positions_def)
  have c3: "\<forall>k<length (sections rows).
        fst (sections rows ! k) < snd (sections rows ! k)
        \<and> snd (sections rows ! k)
            = (if k + 1 < length (sections rows) then fst (sections rows ! (k + 1))
               else length rows)"
  proof (intro allI impI conjI)
    fix k assume k: "k < length (sections rows)"
    then have kq: "k < length ?qb" by (simp add: len)
    show "fst (sections rows ! k) < snd (sections rows ! k)"
      unfolding sections_def using s b kq by (rule sb_nonempty)
    show "snd (sections rows ! k)
            = (if k + 1 < length (sections rows) then fst (sections rows ! (k + 1))
               else length rows)"
      using kq by (simp add: len, simp add: sections_def sb_nth)
  qed
  have c4: "\<forall>r<length rows.
        (\<exists>q\<le>r. is_question_row (rows ! q)) \<longrightarrow>
        (\<exists>!k. k < length (sections rows)
              \<and> fst (sections rows ! k) \<le> r \<and> r < snd (sections rows ! k))"
  proof (intro allI impI)
    fix r assume r: "r < length rows" and ex: "\<exists>q\<le>r. is_question_row (rows ! q)"
    then obtain q where q: "q \<le> r" "is_question_row (rows ! q)" by blast
    then have qin: "q \<in> set ?qb" using r by (simp add: qb_set)
    then have ne: "?qb \<noteq> []" by auto
    from qin obtain i where i: "i < length ?qb" "?qb ! i = q" by (auto simp: in_set_conv_nth)
    have "?qb ! 0 \<le> ?qb ! i" using s i by (intro sorted_nth_mono_less) simp_all
    then have lo: "?qb ! 0 \<le> r" using i q by simp
    from sb_cover_ex[OF s ne lo r]
    obtain k where k: "k < length ?qb" "fst (section_bounds ?qb ?n ! k) \<le> r"
      "r < snd (section_bounds ?qb ?n ! k)" by blast
    show "\<exists>!k. k < length (sections rows)
              \<and> fst (sections rows ! k) \<le> r \<and> r < snd (sections rows ! k)"
    proof (rule ex1I[of _ k])
      show "k < length (sections rows) \<and> fst (sections rows ! k) \<le> r \<and> r < snd (sections rows ! k)"
        using k by (simp add: len, simp add: sections_def)
    next
      fix j assume "j < length (sections rows) \<and> fst (sections rows ! j) \<le> r \<and> r < snd (sections rows ! j)"
      then have j: "j < length ?qb" "fst (section_bounds ?qb ?n ! j) \<le> r"
        "r < snd (section_bounds ?qb ?n ! j)" by (simp_all add: len, simp_all add: sections_def)
      show "j = k" using s j k by (rule sb_cover_unique)
    qed
  qed
  have c5: "\<forall>r<length rows.
        (\<forall>q\<le>r. \<not> is_question_row (rows ! q)) \<longrightarrow>
        \<not> (\<exists>k<length (sections rows).
              fst (sections rows ! k) \<le> r \<and> r < snd (sections rows ! k))"
  proof (intro allI impI notI)
    fix r assume r: "r < length rows" and no: "\<forall>q\<le>r. \<not> is_question_row (rows ! q)"
      and "\<exists>k<length (sections rows). fst (sections rows ! k) \<le> r \<and> r < snd (sections rows ! k)"
    then obtain k where k: "k < length ?qb" "fst (sections rows ! k) \<le> r" by (auto simp: len)
    then have le: "?qb ! k \<le> r" by (simp add: sections_def sb_nth)
    have "?qb ! k \<in> set ?qb" using k by simp
    then have "is_question_row (rows ! (?qb ! k))" by (simp add: qb_set)
    then show False using no le by blast
  qed
  show ?thesis using c1 c2 c3 c4 c5 by blast
qed

text \<open>With the default index the boundaries the code collects are these positions.\<close>

lemma zip_default_index:
  "zip (map f [0..<length rows]) rows = map (\<lambda>i. (f i, rows ! i)) [0..<length rows]"
  by (rule nth_equalityI) simp_all

lemma question_boundaries_default_index:
  assumes "default_index df"
  shows "question_boundaries df
           = map (\<lambda>i. IntLabel (int i)) (question_positions (df_rows df))"
proof -
  have "iterrows df
          = map (\<lambda>i. (IntLabel (int i), df_rows df ! i)) [0..<length (df_rows df)]"
    using assms unfolding iterrows_def default_index_def by (simp only: zip_default_index)
  then show ?thesis
    by (simp add: question_boundaries_def question_positions_def filter_map comp_def)
qed

lemma section_bounds_map:
  "section_bounds (map f qb) (f n) = map (\<lambda>p. (f (fst p), f (snd p))) (section_bounds qb n)"
  by (rule nth_equalityI) (simp_all add: section_bounds_def)

lemma question_sections_default_index:
  assumes "default_index df"
  shows "question_sections df
           = map (\<lambda>p. (IntLabel (int (fst p)), IntLabel (int (snd p)))) (sections (df_rows df))"
  unfolding question_sections_def sections_def question_boundaries_default_index [OF assms]
  by (rule section_bounds_map)

text \<open>C2 on two frames whose labels are not the positions (a file whose data lines have one
  field more than its header line, the first field being 1, 2, 3 or 10, 20, 30). The
  question row is at position 0. With the labels 1, 2, 3 the one section is \<open>[1, 3)\<close>: it
  does not cover the question row, its question text is the answer \<open>Yes\<close> of position 1, and
  its only data row is the one of position 2. With the labels 10, 20, 30 the boundary 10 is
  no position of the frame and the conversion raises \<open>IndexError\<close>. With the default labels
  the section of the same grid is \<open>[0, 3)\<close>.\<close>

theorem boundary_labels_used_as_positions:
  "is_question_row (df_rows frame_shifted_labels ! 0)
   \<and> question_sections frame_shifted_labels = [(IntLabel 1, IntLabel 3)]
   \<and> section_parts (df_rows frame_shifted_labels) (IntLabel 1) (IntLabel 3)
       = Inr (''Yes'', [], [[''No'', ''40%'']])
   \<and> question_sections frame_large_labels = [(IntLabel 10, IntLabel 3)]
   \<and> format_survey_csv_to_markdown title_ascii frame_large_labels ''a.csv'' = Inl IndexError
   \<and> sections (df_rows frame_shifted_labels) = [(0, 3)]
   \<and> section_parts (df_rows frame_shifted_labels) (IntLabel 0) (IntLabel 3)
       = Inr (''Q1: Do you like tea?'', [], [[''Yes'', ''60%''], [''No'', ''40%'']])"
  by code_simp

section \<open>Properties of the header reconciler\<close>

lemma last_where_Nil: "last_where P [] = None"
  by (simp add: last_where_def)

lemma last_where_Cons:
  "last_where P (x # xs) =
     (case last_where P xs of Some y \<Rightarrow> Some y | None \<Rightarrow> if P x then Some x else None)"
  by (simp add: last_where_def split: list.splits)

lemma last_where_Some: "last_where P xs = Some y \<Longrightarrow> y \<in> set xs \<and> P y"
proof -
  assume a: "last_where P xs = Some y"
  then have ne: "filter P xs \<noteq> []"
    by (cases "filter P xs") (simp_all add: last_where_def)
  from a have y: "y = last (filter P xs)"
    by (cases "filter P xs") (simp_all add: last_where_def)
  from ne have "last (filter P xs) \<in> set (filter P xs)" by (rule last_in_set)
  then show ?thesis using y by simp
qed

lemma last_where_None: "(last_where P xs = None) = (\<forall>x\<in>set xs. \<not> P x)"
proof -
  have "(last_where P xs = None) = (filter P xs = [])"
    by (cases "filter P xs") (simp_all add: last_where_def)
  then show ?thesis by (simp add: filter_empty_conv)
qed

lemma scan_headers_last:
  "scan_headers hs (d, t) =
     (case last_where is_descriptive hs of None \<Rightarrow> d | Some h \<Rightarrow> Some h,
      case last_where has_N_marker hs of None \<Rightarrow> t | Some h \<Rightarrow> Some h)"
proof (induction hs arbitrary: d t)
  case Nil
  show ?case by (simp add: last_where_Nil)
next
  case (Cons h hs)
  show ?case by (simp add: Cons.IH last_where_Cons split: option.splits)
qed

lemma scan_section_fst:
  "fst (scan_section rs (hs, ds)) = hs @ map clean_cells (filter is_header_row rs)"
  by (induction rs arbitrary: hs ds) (simp_all add: Let_def)

lemma search_N_row_find: "search_N_row rs = map_option clean_cells (find has_N_cell rs)"
  by (induction rs) simp_all

lemma is_header_row_Nil: "\<not> is_header_row []"
  by (simp add: is_header_row_def header_row_text_def full_row_text_def specific_headers_def)

lemma startswith_N_eq:
  "startswith ''N='' (c # e # rest) = (c = CHR ''N'' \<and> e = CHR ''='')"
  by (simp add: startswith_def)

lemma search_N_digits_Cons_D:
  assumes "search_N_digits (c # cs)" and "\<not> search_N_digits cs"
  shows "\<exists>d rest. c # cs = CHR ''N'' # CHR ''='' # d # rest"
proof -
  from assms have h: "c = CHR ''N'' \<and> (case cs of e # d # _ \<Rightarrow> e = CHR ''='' \<and> isdigit d | _ \<Rightarrow> False)"
    by (simp only: search_N_digits.simps) blast
  then obtain e d rest where "cs = e # d # rest" "e = CHR ''=''"
    by (auto split: list.splits)
  then show ?thesis using h by simp
qed

lemma search_N_digits_contains: "search_N_digits s \<Longrightarrow> contains ''N='' s"
proof (induction s)
  case Nil
  then show ?case by simp
next
  case (Cons c cs)
  show ?case
  proof (cases "search_N_digits cs")
    case True
    then have "contains ''N='' cs" by (rule Cons.IH)
    then show ?thesis by simp
  next
    case False
    with Cons.prems obtain d rest where "c # cs = CHR ''N'' # CHR ''='' # d # rest"
      using search_N_digits_Cons_D by blast
    then have "startswith ''N='' (c # cs)" by (simp only: startswith_N_eq)
    then show ?thesis by simp
  qed
qed

lemma has_N_marker_iff: "has_N_marker h = contains ''N='' (join '' '' h)"
  using search_N_digits_contains [of "join '' '' h"] by (auto simp: has_N_marker_def Let_def)

lemma clean_cells_Nil_iff: "(clean_cells r = []) = (r = [])"
  by (simp add: clean_cells_def)

lemma has_N_cell_Nil: "\<not> has_N_cell []"
  by (simp add: has_N_cell_def non_empty_cells_def)

lemma search_N_row_truthy: "search_N_row rs = Some th \<Longrightarrow> th \<noteq> []"
proof (induction rs)
  case Nil
  then show ?case by simp
next
  case (Cons r rs)
  show ?case
  proof (cases "has_N_cell r")
    case True
    then have "r \<noteq> []" using has_N_cell_Nil by auto
    then show ?thesis using Cons.prems True by (auto simp: clean_cells_Nil_iff)
  next
    case False
    then show ?thesis using Cons by simp
  qed
qed

lemma fallback_total_truthy: "truthy t \<Longrightarrow> fallback_total sec abv t = t"
  by (simp add: fallback_total_def)

lemma fallback_total_None:
  "fallback_total sec abv None =
     (case search_N_row sec of
        Some th \<Rightarrow> Some th
      | None \<Rightarrow> search_N_row abv)"
proof (cases "search_N_row sec")
  case None
  then show ?thesis by (cases "search_N_row abv") (simp_all add: fallback_total_def)
next
  case (Some th)
  then have "th \<noteq> []" by (rule search_N_row_truthy)
  then show ?thesis using Some by (simp add: fallback_total_def)
qed

lemma build_header_rows_cases:
  assumes "\<And>x. d = Some x \<Longrightarrow> x \<noteq> []" and "\<And>x. t = Some x \<Longrightarrow> x \<noteq> []"
  shows "build_header_rows d t =
     (case d of None \<Rightarrow> [] | Some x \<Rightarrow> [x]) @ (case t of None \<Rightarrow> [] | Some x \<Rightarrow> [x])"
  using assms by (cases d; cases t) (simp_all add: build_header_rows_def)

lemma scan_headers_start:
  "scan_headers hs (None, None) = (last_where is_descriptive hs, last_where has_N_marker hs)"
  by (simp add: scan_headers_last split: option.splits)

lemma reconcile_flagged:
  assumes "filter is_header_row sec \<noteq> []"
  shows "reconcile_headers sec abv (fst (scan_section sec ([], []))) =
     build_header_rows
       (last_where is_descriptive (map clean_cells (filter is_header_row sec)))
       (fallback_total sec abv
          (last_where has_N_marker (map clean_cells (filter is_header_row sec))))"
  using assms
  by (simp add: reconcile_headers_def scan_section_fst scan_headers_start)

lemma reconcile_unflagged:
  assumes "filter is_header_row sec = []"
  shows "reconcile_headers sec abv (fst (scan_section sec ([], []))) = []"
  using assms
  by (simp add: reconcile_headers_def scan_section_fst)

lemma flagged_nonempty:
  assumes "h \<in> set (map clean_cells (filter is_header_row rs))"
  shows "h \<noteq> []"
proof -
  from assms obtain r where r: "is_header_row r" "h = clean_cells r" by auto
  then have "r \<noteq> []" using is_header_row_Nil by auto
  then show ?thesis using r by (simp add: clean_cells_Nil_iff)
qed

lemma last_where_flagged:
  assumes "last_where P (map clean_cells (filter is_header_row rs)) = Some x"
  shows "x \<noteq> []"
proof -
  from assms have "x \<in> set (map clean_cells (filter is_header_row rs))"
    by (rule last_where_Some [THEN conjunct1])
  then show ?thesis by (rule flagged_nonempty)
qed

lemma fallback_total_None_nonempty:
  assumes "fallback_total sec abv None = Some x"
  shows "x \<noteq> []"
proof (cases "search_N_row sec")
  case None
  with assms have "search_N_row abv = Some x"
    by (simp add: fallback_total_None)
  then show ?thesis by (rule search_N_row_truthy)
next
  case (Some th)
  with assms have "th = x" by (simp add: fallback_total_None)
  then show ?thesis using Some search_N_row_truthy by blast
qed

lemma has_N_marker_fun: "has_N_marker = (\<lambda>h. contains ''N='' (join '' '' h))"
  by (rule ext) (rule has_N_marker_iff)

text \<open>The reconciler on any rows: \<open>sec\<close> are the rows read for
  \<^verbatim>\<open>range(question_start + 1, question_end)\<close> and \<open>abv\<close> those above the question row.\<close>

lemma reconcile_last_flagged:
  assumes "filter is_header_row sec \<noteq> []"
  shows "\<exists>sample.
      reconcile_headers sec abv (fst (scan_section sec ([], []))) =
        (case last_where is_descriptive
                (map clean_cells (filter is_header_row sec)) of
           None \<Rightarrow> [] | Some d \<Rightarrow> [d]) @ sample
      \<and> length sample \<le> 1
      \<and> (\<forall>t. last_where (\<lambda>h. contains ''N='' (join '' '' h))
                (map clean_cells (filter is_header_row sec)) = Some t
             \<longrightarrow> sample = [t])"
proof -
  let ?flagged = "map clean_cells (filter is_header_row sec)"
  let ?d = "last_where is_descriptive ?flagged"
  let ?t = "last_where has_N_marker ?flagged"
  let ?t' = "fallback_total sec abv ?t"
  have d_ne: "\<And>x. ?d = Some x \<Longrightarrow> x \<noteq> []"
    by (rule last_where_flagged)
  have t_ne: "\<And>x. ?t = Some x \<Longrightarrow> x \<noteq> []"
    by (rule last_where_flagged)
  have t'_ne: "\<And>x. ?t' = Some x \<Longrightarrow> x \<noteq> []"
  proof -
    fix x assume a: "?t' = Some x"
    show "x \<noteq> []"
    proof (cases ?t)
      case None
      with a have "fallback_total sec abv None = Some x"
        by simp
      then show ?thesis by (rule fallback_total_None_nonempty)
    next
      case (Some y)
      then have "y \<noteq> []" by (rule t_ne)
      then have "?t' = Some y" using Some by (simp add: fallback_total_truthy)
      with a \<open>y \<noteq> []\<close> show ?thesis by simp
    qed
  qed
  let ?sample = "case ?t' of None \<Rightarrow> [] | Some x \<Rightarrow> [x]"
  have eq: "reconcile_headers sec abv (fst (scan_section sec ([], []))) = (case ?d of None \<Rightarrow> [] | Some d \<Rightarrow> [d]) @ ?sample"
    using build_header_rows_cases [of ?d ?t', OF d_ne t'_ne] reconcile_flagged [OF assms]
    by simp
  have len: "length ?sample \<le> 1" by (cases ?t') simp_all
  have sel: "\<forall>t. ?t = Some t \<longrightarrow> ?sample = [t]"
  proof (intro allI impI)
    fix t assume a: "?t = Some t"
    then have "t \<noteq> []" by (rule t_ne)
    then show "?sample = [t]" using a by (simp add: fallback_total_truthy)
  qed
  from eq len sel show ?thesis unfolding has_N_marker_fun by blast
qed

lemma reconcile_fallback:
  "(filter is_header_row sec \<noteq> []
      \<and> (\<forall>r\<in>set (filter is_header_row sec).
            \<not> contains ''N='' (join '' '' (clean_cells r)))
    \<longrightarrow> reconcile_headers sec abv (fst (scan_section sec ([], []))) =
          (case last_where is_descriptive
                  (map clean_cells (filter is_header_row sec)) of
             None \<Rightarrow> [] | Some d \<Rightarrow> [d])
          @ (case find has_N_cell sec of
               Some r \<Rightarrow> [clean_cells r]
             | None \<Rightarrow>
                (case find has_N_cell abv of
                   Some r \<Rightarrow> [clean_cells r] | None \<Rightarrow> [])))
   \<and> (filter is_header_row sec = [] \<longrightarrow> reconcile_headers sec abv (fst (scan_section sec ([], []))) = [])"
proof (intro conjI impI)
  assume "filter is_header_row sec = []"
  then show "reconcile_headers sec abv (fst (scan_section sec ([], []))) = []" by (rule reconcile_unflagged)
next
  let ?flagged = "map clean_cells (filter is_header_row sec)"
  let ?d = "last_where is_descriptive ?flagged"
  let ?t = "last_where has_N_marker ?flagged"
  let ?t' = "fallback_total sec abv None"
  assume a: "filter is_header_row sec \<noteq> []
      \<and> (\<forall>r\<in>set (filter is_header_row sec).
            \<not> contains ''N='' (join '' '' (clean_cells r)))"
  then have ne: "filter is_header_row sec \<noteq> []" by blast
  from a have "\<forall>h\<in>set ?flagged. \<not> has_N_marker h" by (auto simp: has_N_marker_iff)
  then have t: "?t = None" by (simp only: last_where_None)
  have d_ne: "\<And>x. ?d = Some x \<Longrightarrow> x \<noteq> []"
    by (rule last_where_flagged)
  have t'_ne: "\<And>x. ?t' = Some x \<Longrightarrow> x \<noteq> []"
  proof -
    fix x assume b: "?t' = Some x"
    then show "x \<noteq> []" by (rule fallback_total_None_nonempty)
  qed
  have "reconcile_headers sec abv (fst (scan_section sec ([], []))) = build_header_rows ?d ?t'"
    using reconcile_flagged [OF ne] t by simp
  also have "\<dots> = (case ?d of None \<Rightarrow> [] | Some d \<Rightarrow> [d]) @ (case ?t' of None \<Rightarrow> [] | Some x \<Rightarrow> [x])"
    using d_ne t'_ne by (rule build_header_rows_cases)
  also have "(case ?t' of None \<Rightarrow> [] | Some x \<Rightarrow> [x]) =
      (case find has_N_cell sec of
               Some r \<Rightarrow> [clean_cells r]
             | None \<Rightarrow>
                (case find has_N_cell abv of
                   Some r \<Rightarrow> [clean_cells r] | None \<Rightarrow> []))"
    by (simp add: fallback_total_None search_N_row_find split: option.splits)
  finally show "reconcile_headers sec abv (fst (scan_section sec ([], []))) =
          (case ?d of None \<Rightarrow> [] | Some d \<Rightarrow> [d])
          @ (case find has_N_cell sec of
               Some r \<Rightarrow> [clean_cells r]
             | None \<Rightarrow>
                (case find has_N_cell abv of
                   Some r \<Rightarrow> [clean_cells r] | None \<Rightarrow> []))" .
qed

text \<open>C3, as the claim states it, fails: the section has the flagged rows \<open>Total, N=100\<close> and
  \<open>Total (A), N=all\<close>. The last flagged row whose text matches \<open>N=\<close> followed by digits is the
  first one, but the reconciler takes the second as the sample-size header, because its text
  contains \<open>N=\<close>.\<close>

theorem sample_size_needs_digits_counterexample:
  "sections grid_bare_marker = [(0, 4)]
   \<and> map clean_cells (filter is_header_row (section_rows grid_bare_marker 0 4))
       = [[''Total'', ''N=100''], [''Total (A)'', ''N=all'']]
   \<and> last_where (\<lambda>h. search_N_digits (join '' '' h))
        (map clean_cells (filter is_header_row (section_rows grid_bare_marker 0 4)))
       = Some [''Total'', ''N=100'']
   \<and> section_headers grid_bare_marker 0 4
       = [[''Total (A)'', ''N=all''], [''Total (A)'', ''N=all'']]"
  by code_simp

text \<open>C3, amended. For every section with at least one flagged header row, the header set is
  the descriptive header (if found) followed by at most one sample-size header, in that
  order whichever was met first. The descriptive header is the last flagged row whose
  cleaned cells, joined by single spaces, contain \<open>Total (A)\<close> or a group label; when some
  flagged row's joined text contains the two characters \<open>N=\<close> (no digit has to follow), the
  sample-size header is the last such row.\<close>

theorem reconciled_headers_last_flagged:
  assumes "filter is_header_row (section_rows rows s e) \<noteq> []"
  shows "\<exists>sample.
      section_headers rows s e =
        (case last_where is_descriptive
                (map clean_cells (filter is_header_row (section_rows rows s e))) of
           None \<Rightarrow> [] | Some d \<Rightarrow> [d]) @ sample
      \<and> length sample \<le> 1
      \<and> (\<forall>t. last_where (\<lambda>h. contains ''N='' (join '' '' h))
                (map clean_cells (filter is_header_row (section_rows rows s e))) = Some t
             \<longrightarrow> sample = [t])"
  unfolding section_headers_def using assms by (rule reconcile_last_flagged)

theorem reconciled_headers_last_flagged_witness:
  "filter is_header_row (section_rows grid_n_then_labels 0 4) \<noteq> []
   \<and> section_headers grid_n_then_labels 0 4
       = [[''Total (A)'', ''Pro-to-Pro Switchers (B)''], [''Total'', ''N=100'']]"
proof -
  let ?G = grid_n_then_labels
  have ne: "filter is_header_row (section_rows ?G 0 4) \<noteq> []" by code_simp
  have d: "last_where is_descriptive (map clean_cells (filter is_header_row (section_rows ?G 0 4)))
      = Some [''Total (A)'', ''Pro-to-Pro Switchers (B)'']" by code_simp
  have t: "last_where (\<lambda>h. contains ''N='' (join '' '' h))
      (map clean_cells (filter is_header_row (section_rows ?G 0 4))) = Some [''Total'', ''N=100'']"
    by code_simp
  from reconciled_headers_last_flagged [OF ne] obtain sample where
    eq: "section_headers ?G 0 4 =
        (case last_where is_descriptive
                (map clean_cells (filter is_header_row (section_rows ?G 0 4))) of
           None \<Rightarrow> [] | Some d \<Rightarrow> [d]) @ sample"
    and sel: "\<forall>t. last_where (\<lambda>h. contains ''N='' (join '' '' h))
                (map clean_cells (filter is_header_row (section_rows ?G 0 4))) = Some t
             \<longrightarrow> sample = [t]"
    by blast
  from sel t have "sample = [[''Total'', ''N=100'']]" by blast
  with eq d have "section_headers ?G 0 4
       = [[''Total (A)'', ''Pro-to-Pro Switchers (B)''], [''Total'', ''N=100'']]" by simp
  with ne show ?thesis by (intro conjI)
qed

text \<open>C4, as the claim states it, fails: the section has no flagged header row, so no
  sample-size header was found among them, and its row \<open>Base, N=100\<close> carries the marker; the
  reconciler runs no fallback scan and the header set is empty.\<close>

theorem fallback_without_flagged_counterexample:
  "sections grid_unflagged_marker = [(0, 3)]
   \<and> filter is_header_row (section_rows grid_unflagged_marker 0 3) = []
   \<and> search_N_row (section_rows grid_unflagged_marker 0 3) = Some [''Base'', ''N=100'']
   \<and> section_headers grid_unflagged_marker 0 3 = []"
  by code_simp

text \<open>C4, amended. For every section that has at least one flagged header row, none of whose
  cleaned cells joined by single spaces contain \<open>N=\<close>, the sample-size header is the first
  row with a present cell matching \<open>N=\<close> and digits among (a) the rows of the section after
  the question row, in row order, then (b) the up to six rows right above the question row,
  from the topmost down; if there is none the header set has no sample-size header. For a
  section with no flagged header row there is no fallback scan and the header set is empty.\<close>

theorem sample_size_fallback:
  "(filter is_header_row (section_rows rows s e) \<noteq> []
      \<and> (\<forall>r\<in>set (filter is_header_row (section_rows rows s e)).
            \<not> contains ''N='' (join '' '' (clean_cells r)))
    \<longrightarrow> section_headers rows s e =
          (case last_where is_descriptive
                  (map clean_cells (filter is_header_row (section_rows rows s e))) of
             None \<Rightarrow> [] | Some d \<Rightarrow> [d])
          @ (case find has_N_cell (drop (s + 1) (take e rows)) of
               Some r \<Rightarrow> [clean_cells r]
             | None \<Rightarrow>
                (case find has_N_cell (drop (s - 6) (take s rows)) of
                   Some r \<Rightarrow> [clean_cells r] | None \<Rightarrow> [])))
   \<and> (filter is_header_row (section_rows rows s e) = [] \<longrightarrow> section_headers rows s e = [])"
  unfolding section_headers_def section_rows_def rows_above_def by (rule reconcile_fallback)

theorem sample_size_fallback_witness:
  "filter is_header_row (section_rows grid_fallback 1 5)
     = [[Text ''Total (A)'', Text ''Pro-to-Pro Switchers (B)'']]
   \<and> \<not> contains ''N='' (join '' '' (clean_cells [Text ''Total (A)'', Text ''Pro-to-Pro Switchers (B)'']))
   \<and> section_headers grid_fallback 1 5
       = [[''Total (A)'', ''Pro-to-Pro Switchers (B)''], [''Sample'', ''N=100'']]
   \<and> filter is_header_row (section_rows grid_unflagged_marker 0 3) = []
   \<and> section_headers grid_unflagged_marker 0 3 = []"
proof -
  let ?G = grid_fallback
  let ?H = grid_unflagged_marker
  have f: "filter is_header_row (section_rows ?G 1 5)
     = [[Text ''Total (A)'', Text ''Pro-to-Pro Switchers (B)'']]" by code_simp
  have n: "\<not> contains ''N='' (join '' '' (clean_cells [Text ''Total (A)'', Text ''Pro-to-Pro Switchers (B)'']))"
    by code_simp
  have hyp: "filter is_header_row (section_rows ?G 1 5) \<noteq> []
      \<and> (\<forall>r\<in>set (filter is_header_row (section_rows ?G 1 5)).
            \<not> contains ''N='' (join '' '' (clean_cells r)))"
    unfolding f using n by simp
  have d: "last_where is_descriptive (map clean_cells (filter is_header_row (section_rows ?G 1 5)))
      = Some [''Total (A)'', ''Pro-to-Pro Switchers (B)'']" by code_simp
  have s: "find has_N_cell (drop (1 + 1) (take 5 ?G)) = Some [Text ''Sample'', Text ''N=100'']"
    by code_simp
  have cl: "clean_cells [Text ''Sample'', Text ''N=100''] = [''Sample'', ''N=100'']" by code_simp
  have u: "filter is_header_row (section_rows ?H 0 3) = []" by code_simp
  from sample_size_fallback [of ?G 1 5, THEN conjunct1, rule_format, OF hyp]
  have g: "section_headers ?G 1 5 = [[''Total (A)'', ''Pro-to-Pro Switchers (B)''], [''Sample'', ''N=100'']]"
    unfolding d s by (simp add: cl)
  from sample_size_fallback [of ?H 0 3, THEN conjunct2, rule_format, OF u]
  have h: "section_headers ?H 0 3 = []" .
  from f n g u h show ?thesis by (intro conjI)
qed

section \<open>Properties of the table renderer\<close>

text \<open>C7, as the claim states it, fails: with a header set and no data rows the renderer
  returns the question heading alone, with no header row and no separator row.\<close>

theorem header_without_data_counterexample:
  "format_question_section 1 ''Q'' [[''A'', ''B'']] []
     = ''### Question 1\<newline>\<newline>**Q**\<newline>\<newline>''
   \<and> \<not> contains ''| A | B |'' (format_question_section 1 ''Q'' [[''A'', ''B'']] [])
   \<and> \<not> contains ''---'' (format_question_section 1 ''Q'' [[''A'', ''B'']] [])"
  by code_simp

text \<open>C7, amended. For a non-empty header set the renderer emits, when the section has at
  least one data row, the heading, the header row built from the first header row and the
  separator row with one \<open>---|\<close> per column; when the section has no data row it emits the
  question heading only.\<close>

theorem header_and_separator_rows:
  "header_rows \<noteq> [] \<Longrightarrow>
   (data_rows \<noteq> [] \<longrightarrow>
      (\<exists>rest. format_question_section n q header_rows data_rows =
         question_heading n q @ ''#### Response Data\<newline>\<newline>''
         @ (''| '' @ join '' | '' (hd header_rows) @ '' |\<newline>'')
         @ (''|'' @ concat (replicate (length (hd header_rows)) ''---|'') @ ''\<newline>'')
         @ rest))
   \<and> (data_rows = [] \<longrightarrow>
        format_question_section n q header_rows data_rows = question_heading n q)"
  by (cases header_rows)
     (simp_all add: format_question_section_def table_headers_def table_line_def
        separator_line_def Let_def)

theorem header_and_separator_rows_witness:
  "[[''A'', ''B'']] \<noteq> ([] :: string list list)
   \<and> (\<exists>rest. format_question_section 1 ''Q'' [[''A'', ''B'']] [[''x'', ''1'']] =
         question_heading 1 ''Q'' @ ''#### Response Data\<newline>\<newline>''
         @ ''| A | B |\<newline>'' @ ''|---|---|\<newline>'' @ rest)
   \<and> format_question_section 1 ''Q'' [[''A'', ''B'']] [] = question_heading 1 ''Q''"
  using header_and_separator_rows [of "[[''A'', ''B'']]" "[[''x'', ''1'']]" 1 "''Q''"]
    header_and_separator_rows [of "[[''A'', ''B'']]" "[]" 1 "''Q''"]
  by (simp add: numeral_2_eq_2)

text \<open>The data-row path: a data row, padded or cut to \<open>n \<ge> 1\<close> columns and cleaned, always
  splits into exactly \<open>n\<close> fields.\<close>

lemma replace_single:
  "replace [a] new s = concat (map (\<lambda>x. if x = a then new else [x]) s)"
  by (induction s) (simp_all add: startswith_def)

lemma clean_cell_Nil: "clean_cell [] = []"
  unfolding clean_cell_def replace_single by simp

lemma clean_cell_Cons:
  "clean_cell (x # xs) =
     (if x = CHR ''|'' then [CHR 0x5C, CHR ''|'']
      else [if x = CHR 0x0A then CHR '' '' else x]) @ clean_cell xs"
  unfolding clean_cell_def replace_single by simp

lemma pipes_after_cell:
  "unescaped_pipes b (clean_cell c @ CHR '' '' # rest) = unescaped_pipes False rest"
proof (induction c arbitrary: b)
  case Nil
  show ?case by (simp add: clean_cell_Nil)
next
  case (Cons x xs)
  show ?case
  proof (cases "x = CHR ''|''")
    case True
    then show ?thesis by (simp add: clean_cell_Cons Cons.IH)
  next
    case False
    then show ?thesis by (simp add: clean_cell_Cons Cons.IH)
  qed
qed

lemma pipes_joined_cells:
  "r \<noteq> [] \<Longrightarrow>
   unescaped_pipes b (join '' | '' (map clean_cell r) @ '' |\<newline>'') = length r"
proof (induction r arbitrary: b rule: list_nonempty_induct)
  case (single x)
  have "unescaped_pipes b (clean_cell x @ CHR '' '' # ''|\<newline>'') = unescaped_pipes False ''|\<newline>''"
    by (rule pipes_after_cell)
  then show ?case by simp
next
  case (cons x xs)
  then obtain y ys where xs: "xs = y # ys" by (cases xs) auto
  have "unescaped_pipes b (clean_cell x @ CHR '' '' # (''| '' @ join '' | '' (map clean_cell xs) @ '' |\<newline>''))
      = unescaped_pipes False (''| '' @ join '' | '' (map clean_cell xs) @ '' |\<newline>'')"
    by (rule pipes_after_cell)
  also have "\<dots> = 1 + unescaped_pipes False (join '' | '' (map clean_cell xs) @ '' |\<newline>'')"
    by simp
  also have "\<dots> = 1 + length xs" by (simp add: cons.IH)
  finally show ?case by (simp add: xs)
qed

lemma data_line_fields:
  assumes "0 < n"
  shows "table_fields (data_line n data_row) = n"
proof -
  let ?r = "take n (pad_row n data_row)"
  have len: "length ?r = n" by (simp add: pad_row_def)
  then have ne: "?r \<noteq> []" using assms by auto
  have "unescaped_pipes False (data_line n data_row)
      = 1 + unescaped_pipes False (join '' | '' (map clean_cell ?r) @ '' |\<newline>'')"
    by (simp add: data_line_def table_line_def)
  also have "\<dots> = 1 + n" using pipes_joined_cells [OF ne] len by simp
  finally show ?thesis by (simp add: table_fields_def)
qed

text \<open>C5 on the grid \<open>grid_header_pipe\<close>: the reconciler hands the renderer the header
  \<open>Total (A), B|C\<close> and the data row \<open>Yes, 6|0%\<close>. The column count is 2 and the data row,
  whose pipe is escaped, has 2 fields, but the header row is emitted with its pipe unescaped
  and has 3 fields.\<close>

theorem header_pipe_not_escaped:
  "sections grid_header_pipe = [(0, 3)]
   \<and> section_headers grid_header_pipe 0 3 = [[''Total (A)'', ''B|C'']]
   \<and> section_data grid_header_pipe 0 3 = [[''Yes'', ''6|0%'']]
   \<and> format_question_section 1 ''Q1: Tea?'' [[''Total (A)'', ''B|C'']] [[''Yes'', ''6|0%'']]
       = ''### Question 1\<newline>\<newline>**Q1: Tea?**\<newline>\<newline>#### Response Data\<newline>\<newline>''
         @ ''| Total (A) | B|C |\<newline>''
         @ ''|---|---|\<newline>''
         @ ''| Yes | 6'' @ [CHR 0x5C] @ ''|0% |\<newline>''
         @ ''\<newline>''
   \<and> length (table_headers [[''Total (A)'', ''B|C'']] [[''Yes'', ''6|0%'']]) = 2
   \<and> table_fields ''| Total (A) | B|C |\<newline>'' = 3
   \<and> table_fields (''| Yes | 6'' @ [CHR 0x5C] @ ''|0% |\<newline>'') = 2"
  by code_simp

section \<open>Properties of the document assembler\<close>

text \<open>A section whose boundaries are positions of the frame: the rows the code reads are the
  slice \<open>section_rows\<close>, and its parts are the question text, \<open>section_headers\<close> and
  \<open>section_data\<close>.\<close>

lemma upto_of_nat: "[int a..int b - 1] = map int [a..<b]"
proof (induction b)
  case 0
  show ?case by simp
next
  case (Suc b)
  show ?case
  proof (cases "a \<le> b")
    case True
    then have "[int a..int b] = [int a..int b - 1] @ [int b]"
      by (simp add: upto_rec2)
    then show ?thesis using True Suc by simp
  next
    case False
    then show ?thesis by simp
  qed
qed

lemma collect_Inr: "collect (map Inr xs) = Inr xs"
  by (induction xs) simp_all

lemma iloc_position: "i < length rows \<Longrightarrow> iloc rows (int i) = Inr (rows ! i)"
  by (simp add: iloc_def)

lemma slice_by_position: "e \<le> length xs \<Longrightarrow> map (nth xs) [a..<e] = drop a (take e xs)"
  by (rule nth_equalityI) simp_all

lemma range_rows_positions:
  assumes "e \<le> length rows"
  shows "range_rows rows (int s + 1) (int e) = Inr (section_rows rows s e)"
proof -
  have "[int s + 1..int e - 1] = map int [Suc s..<e]"
    using upto_of_nat [of "Suc s" e] by (simp add: add.commute)
  moreover have "map (iloc rows) (map int [Suc s..<e]) = map Inr (map (nth rows) [Suc s..<e])"
    using assms by (simp add: iloc_position)
  moreover have "map (nth rows) [Suc s..<e] = drop (Suc s) (take e rows)"
    using assms by (rule slice_by_position)
  ultimately show ?thesis
    by (simp add: range_rows_def section_rows_def collect_Inr)
qed

lemma question_text_position:
  assumes "s < length rows" and "rows ! s \<noteq> []"
  shows "question_text rows (int s) = Inr (strip (str (hd (rows ! s))))"
  using assms by (cases "rows ! s") (simp_all add: question_text_def iloc_position iloc0_def)

lemma section_parts_positions:
  assumes "s < length rows" and "rows ! s \<noteq> []" and "e \<le> length rows"
  shows "section_parts rows (IntLabel (int s)) (IntLabel (int e))
           = Inr (strip (str (hd (rows ! s))), section_headers rows s e, section_data rows s e)"
  using question_text_position [OF assms(1,2)] range_rows_positions [OF assms(3), of s]
  by (simp add: section_parts_def section_headers_def section_data_def add.commute
      split: prod.splits)

text \<open>For any integer boundaries, the header set and the data rows that the assembler gets
  are those of the reconciler and of the scan on the rows read.\<close>

lemma section_parts_result:
  assumes "section_parts rows (IntLabel s) (IntLabel e) = Inr (q, header_rows, data_rows)"
  shows "\<exists>sec. range_rows rows (s + 1) e = Inr sec
           \<and> header_rows
               = reconcile_headers sec (rows_above rows (nat s)) (fst (scan_section sec ([], [])))
           \<and> data_rows = snd (scan_section sec ([], []))"
proof (cases "question_text rows s")
  case (Inl err)
  with assms show ?thesis by (simp add: section_parts_def)
next
  case q: (Inr q')
  show ?thesis
  proof (cases "range_rows rows (s + 1) e")
    case (Inl err)
    with assms q show ?thesis by (simp add: section_parts_def)
  next
    case (Inr sec)
    with assms q show ?thesis by (simp add: section_parts_def split: prod.splits)
  qed
qed

text \<open>The conversion raises nothing on a frame with the default index: every section starts
  at a row of the frame and ends inside it, and a row of a non-empty frame has a first cell.\<close>

lemma process_sections_total:
  assumes "\<forall>p\<in>set secs. fst p < length rows \<and> rows ! fst p \<noteq> [] \<and> snd p \<le> length rows"
  shows "\<exists>r. process_sections rows
               (map (\<lambda>p. (IntLabel (int (fst p)), IntLabel (int (snd p)))) secs) st = Inr r"
  using assms
proof (induction secs arbitrary: st)
  case Nil
  show ?case by simp
next
  case (Cons p secs)
  obtain s e where p: "p = (s, e)" by (cases p)
  obtain n c where st: "st = (n, c)" by (cases st)
  from Cons.prems p have "s < length rows" "rows ! s \<noteq> []" "e \<le> length rows" by simp_all
  then have parts: "section_parts rows (IntLabel (int s)) (IntLabel (int e))
      = Inr (strip (str (hd (rows ! s))), section_headers rows s e, section_data rows s e)"
    by (rule section_parts_positions)
  from Cons.prems
  have rest: "\<forall>p\<in>set secs. fst p < length rows \<and> rows ! fst p \<noteq> [] \<and> snd p \<le> length rows"
    by simp
  show ?case
  proof (cases "section_headers rows s e \<noteq> [] \<or> section_data rows s e \<noteq> []")
    case True
    then show ?thesis using Cons.IH [OF rest] by (simp add: p st parts)
  next
    case False
    then show ?thesis using Cons.IH [OF rest] by (simp add: p st parts)
  qed
qed

lemma sections_in_range:
  assumes "p \<in> set (sections rows)"
  shows "fst p < length rows \<and> snd p \<le> length rows"
proof -
  from assms obtain k where k: "k < length (sections rows)" "sections rows ! k = p"
    by (auto simp: in_set_conv_nth)
  then have kq: "k < length (question_positions rows)" by (simp add: sections_def sb_length)
  have b: "\<forall>x\<in>set (question_positions rows). x < length rows" by (simp add: qb_set)
  have p: "p = (question_positions rows ! k,
               if k + 1 < length (question_positions rows)
               then question_positions rows ! (k + 1) else length rows)"
    using k(2) kq by (simp add: sections_def sb_nth)
  have f: "fst p < length rows" using b kq by (simp add: p)
  have "snd p \<le> length rows"
  proof (cases "k + 1 < length (question_positions rows)")
    case True
    then have "question_positions rows ! (k + 1) < length rows" using b by simp
    then show ?thesis using True by (simp add: p)
  next
    case False
    then show ?thesis by (simp add: p)
  qed
  with f show ?thesis by simp
qed

lemma conversion_total:
  assumes "wf_df df" and "default_index df"
  shows "\<exists>out. format_survey_csv_to_markdown py_title df filename = Inr out"
proof (cases "df_empty df")
  case True
  then show ?thesis by (simp add: format_survey_csv_to_markdown_def)
next
  case False
  then have cols: "0 < df_columns df" by (simp add: df_empty_def)
  have "\<forall>p\<in>set (sections (df_rows df)).
          fst p < length (df_rows df) \<and> df_rows df ! fst p \<noteq> [] \<and> snd p \<le> length (df_rows df)"
  proof
    fix p assume "p \<in> set (sections (df_rows df))"
    then have r: "fst p < length (df_rows df) \<and> snd p \<le> length (df_rows df)"
      by (rule sections_in_range)
    then have "df_rows df ! fst p \<in> set (df_rows df)" by simp
    then have "length (df_rows df ! fst p) = df_columns df"
      using assms(1) by (simp add: wf_df_def list_all_iff)
    then have "df_rows df ! fst p \<noteq> []" using cols by auto
    with r show "fst p < length (df_rows df) \<and> df_rows df ! fst p \<noteq> []
        \<and> snd p \<le> length (df_rows df)" by simp
  qed
  then obtain r where "process_sections (df_rows df) (question_sections df)
      (0, document_header py_title df filename) = Inr r"
    unfolding question_sections_default_index [OF assms(2)]
    using process_sections_total by blast
  then show ?thesis using False by (cases r) (simp add: format_survey_csv_to_markdown_def)
qed

text \<open>C8, as the claim states it, fails: for a frame with no rows the document has the
  placeholder but no summary, so it reports no count of processed questions.\<close>

theorem empty_grid_summary_counterexample:
  "\<not> (\<exists>out. format_survey_csv_to_markdown title_ascii \<lparr>df_columns = 2, df_index = [], df_rows = []\<rparr> ''a.csv''
              = Inr out
            \<and> contains ''This file is empty'' out
            \<and> contains ''Total Questions Processed'' out)"
proof -
  have e: "format_survey_csv_to_markdown title_ascii \<lparr>df_columns = 2, df_index = [], df_rows = []\<rparr> ''a.csv''
             = Inr ''# a.csv\<newline>\<newline>*This file is empty.*\<newline>''"
    by (simp add: format_survey_csv_to_markdown_def df_empty_def empty_document_def)
  have n: "\<not> contains ''Total Questions Processed''
               ''# a.csv\<newline>\<newline>*This file is empty.*\<newline>''"
    by code_simp
  show ?thesis using e n by auto
qed

text \<open>C8, amended. For a frame with no rows the conversion does not fail: it returns exactly
  the title line with the file name as given, a blank line and the placeholder
  \<open>*This file is empty.*\<close>; nothing else, so no summary and no question count.\<close>

theorem empty_grid_document:
  "df_rows df = [] \<Longrightarrow>
   format_survey_csv_to_markdown py_title df filename
     = Inr (''# '' @ filename @ ''\<newline>\<newline>*This file is empty.*\<newline>'')"
  by (simp add: format_survey_csv_to_markdown_def df_empty_def empty_document_def)

theorem empty_grid_document_witness:
  "df_rows \<lparr>df_columns = 2, df_index = [], df_rows = []\<rparr> = []
   \<and> format_survey_csv_to_markdown title_ascii \<lparr>df_columns = 2, df_index = [], df_rows = []\<rparr> ''a.csv''
       = Inr ''# a.csv\<newline>\<newline>*This file is empty.*\<newline>''"
  using empty_grid_document [of "\<lparr>df_columns = 2, df_index = [], df_rows = []\<rparr>" title_ascii "''a.csv''"]
  by simp

text \<open>C6, as the claim states it, fails: the grid is one question row; its section has an
  empty header set and no data rows, and the document is the header followed by the summary
  with a count of 0, with no placeholder and no \<open>Question 1\<close> heading.\<close>

theorem empty_section_placeholder_counterexample:
  "sections (df_rows frame_one_question) = [(0, 1)]
   \<and> section_headers (df_rows frame_one_question) 0 1 = []
   \<and> section_data (df_rows frame_one_question) 0 1 = []
   \<and> format_survey_csv_to_markdown title_ascii frame_one_question ''a.csv''
       = Inr (''# A\<newline>\<newline>''
              @ ''**Total Records:** 1  \<newline>''
              @ ''**Total Columns:** 1  \<newline>''
              @ ''**Generated:** October 28, 2025  \<newline>\<newline>''
              @ ''## Survey Questions and Responses\<newline>\<newline>''
              @ ''## Summary\<newline>\<newline>''
              @ ''**Total Questions Processed:** 0  \<newline>''
              @ ''**Source File:** a.csv  \<newline>'')
   \<and> \<not> (\<exists>out. format_survey_csv_to_markdown title_ascii frame_one_question ''a.csv'' = Inr out
             \<and> contains ''No response data'' out)"
proof -
  have s: "sections (df_rows frame_one_question) = [(0, 1)]"
    by code_simp
  have h: "section_headers (df_rows frame_one_question) 0 1 = []"
    by code_simp
  have d: "section_data (df_rows frame_one_question) 0 1 = []"
    by code_simp
  have e: "format_survey_csv_to_markdown title_ascii frame_one_question ''a.csv''
       = Inr (''# A\<newline>\<newline>''
              @ ''**Total Records:** 1  \<newline>''
              @ ''**Total Columns:** 1  \<newline>''
              @ ''**Generated:** October 28, 2025  \<newline>\<newline>''
              @ ''## Survey Questions and Responses\<newline>\<newline>''
              @ ''## Summary\<newline>\<newline>''
              @ ''**Total Questions Processed:** 0  \<newline>''
              @ ''**Source File:** a.csv  \<newline>'')"
    by code_simp
  have n: "\<not> contains ''No response data''
              (''# A\<newline>\<newline>''
              @ ''**Total Records:** 1  \<newline>''
              @ ''**Total Columns:** 1  \<newline>''
              @ ''**Generated:** October 28, 2025  \<newline>\<newline>''
              @ ''## Survey Questions and Responses\<newline>\<newline>''
              @ ''## Summary\<newline>\<newline>''
              @ ''**Total Questions Processed:** 0  \<newline>''
              @ ''**Source File:** a.csv  \<newline>'')"
    by code_simp
  from e n have x: "\<not> (\<exists>out. format_survey_csv_to_markdown title_ascii frame_one_question ''a.csv''
      = Inr out \<and> contains ''No response data'' out)"
    by (simp only: sum.inject) blast
  from s h d e x show ?thesis by (intro conjI)
qed

text \<open>C6, amended. A section whose header set is empty and which has no data rows is skipped
  by the assembler: it adds nothing to the document and does not raise the question count.
  The placeholder \<open>*No response data available for this question.*\<close> is what the renderer
  returns when it is called with no header rows and no data rows.\<close>

theorem empty_section_skipped:
  assumes "section_parts rows question_start question_end = Inr (q, [], [])"
  shows "process_sections rows ((question_start, question_end) # rest)
           (question_number, markdown_content)
       = process_sections rows rest (question_number, markdown_content)
     \<and> format_question_section k q [] []
       = question_heading k q @ ''*No response data available for this question.*\<newline>\<newline>''"
  using assms by (simp add: format_question_section_def)

theorem empty_section_skipped_witness:
  "section_headers [[Text ''Q1: Tea?'']] 0 1 = []
   \<and> section_data [[Text ''Q1: Tea?'']] 0 1 = []
   \<and> question_text [[Text ''Q1: Tea?'']] 0 = Inr ''Q1: Tea?''
   \<and> section_parts [[Text ''Q1: Tea?'']] (IntLabel 0) (IntLabel 1) = Inr (''Q1: Tea?'', [], [])
   \<and> process_sections [[Text ''Q1: Tea?'']] [(IntLabel 0, IntLabel 1)] (0, ''# T'')
       = Inr (0, ''# T'')
   \<and> format_question_section 1 ''Q1: Tea?'' [] []
       = question_heading 1 ''Q1: Tea?''
         @ ''*No response data available for this question.*\<newline>\<newline>''"
proof -
  have h: "section_headers [[Text ''Q1: Tea?'']] 0 1 = []" by code_simp
  have d: "section_data [[Text ''Q1: Tea?'']] 0 1 = []" by code_simp
  have q: "question_text [[Text ''Q1: Tea?'']] 0 = Inr ''Q1: Tea?''" by code_simp
  have p: "section_parts [[Text ''Q1: Tea?'']] (IntLabel 0) (IntLabel 1)
      = Inr (''Q1: Tea?'', [], [])" by code_simp
  from empty_section_skipped [OF p, of "[]" 0 "''# T''" 1] h d q p
  show ?thesis by simp
qed

end
